theory Spec2Isabelle
  imports Complex_Main "HOL-Library.AList"
begin

section \<open>DataRetriever: retrieval and alignment of archived signals\<close>

text \<open>
  A shallow embedding of \<^verbatim>\<open>data_retriever.py\<close>. Python floats are modelled as
  \<^typ>\<open>real\<close>; the not-a-number marker of numpy is \<open>None\<close> in \<^typ>\<open>real option\<close>.
  A \<^verbatim>\<open>datetime\<close> is identified with its POSIX timestamp in seconds. Exceptions are
  values of \<open>py_error\<close>; a method of the class takes the object and returns the outcome
  together with the object as the call leaves it, so that the fields written before an
  exception stay written. Output printed to the console is not part of the model.
\<close>

subsection \<open>Data model\<close>

datatype py_error =
  ValueError | AttributeError | TypeError | KeyError | IndexError | UnboundLocalError
  | ArangeError | OverflowError

datatype outcome = Returned | Raised py_error

text \<open>One record of the \<^verbatim>\<open>data\<close> array of the archiver's JSON answer.\<close>

record archiver_point =
  p_secs :: int
  p_nanos :: int
  p_val :: real

text \<open>The dictionary \<^verbatim>\<open>{'secs': secs, 'vals': vals}\<close> built by \<^verbatim>\<open>get_history\<close>, and the
  data frame made of it: two columns of the same length, kept as one row
  \<open>(secs, vals)\<close> per sample. The empty dictionary \<^verbatim>\<open>{}\<close> of a failed fetch, and the data
  frame without columns made of it, are \<open>None\<close> in \<open>frame option\<close>.\<close>

type_synonym frame = "(real \<times> real) list"

definition secs :: "frame \<Rightarrow> real list" where
  "secs f = map fst f"

definition vals :: "frame \<Rightarrow> real list" where
  "vals f = map snd f"

text \<open>\<^verbatim>\<open>val_range\<close> as callers pass it: a flat pair of numbers (list or tuple) or a list
  of ranges, each range a list of numbers.\<close>

datatype range_arg = Flat "real list" | Nested "real list list"

record align_setup =
  base_id :: "int option"
  base_pv :: "string option"
  val_range :: range_arg
  disTimeAddBack_sec :: real
  dtResample_sec :: real
  Trim :: bool

text \<open>\<^verbatim>\<open>self.__rawData\<close>: the list \<^verbatim>\<open>[]\<close> of the constructor, the list of results while
  \<^verbatim>\<open>getHistory\<close> collects them, or the dictionary from signal name to data frame
  (an association list in insertion order).\<close>

datatype raw = RawList "frame option list" | RawDict "(string \<times> frame option) list"

text \<open>\<^verbatim>\<open>self.__synData\<close>: the list \<^verbatim>\<open>[]\<close> of the constructor, the dictionary with the keys
  \<^verbatim>\<open>startTime\<close>, \<^verbatim>\<open>relTime\<close>, \<^verbatim>\<open>vals\<close>, \<^verbatim>\<open>duration_hour\<close> that \<^verbatim>\<open>alignHistory\<close> fills, or the
  final data frame: its index, its columns by signal name and its attribute
  \<^verbatim>\<open>duration_hour\<close>.\<close>

datatype syn =
  SynList
  | SynDict (syn_startTime: "real option") (syn_relTime: "real list")
      (syn_vals: "real option list list") (syn_duration_hour: "real option")
  | SynFrame (syn_index: "real list") (syn_columns: "(string \<times> real option list) list")
      (syn_attr_duration_hour: real)

record retriever =
  pvNames :: "string list"
  alignSetup :: align_setup
  webServer :: string
  endTime :: real
  duration_hour :: "real option"
  startTime :: "real option"
  rawData :: raw
  synData :: syn

text \<open>A Python dictionary built by inserting the pairs in order: a key that is already
  present keeps its position and takes the new value.\<close>

definition dict_of :: "('k \<times> 'v) list \<Rightarrow> ('k \<times> 'v) list" where
  "dict_of kvs = fold (\<lambda>(k, v). AList.update k v) kvs []"

subsection \<open>numpy functions used by the class\<close>

text \<open>\<^verbatim>\<open>np.searchsorted(a, v, side)\<close> for one key: the bisection of numpy's
  \<^verbatim>\<open>binsearch\<close>, which is what runs whether or not \<open>a\<close> is sorted.\<close>

function bisect :: "bool \<Rightarrow> real list \<Rightarrow> real \<Rightarrow> nat \<Rightarrow> nat \<Rightarrow> nat" where
  "bisect right a v lo hi =
     (if lo < hi then
        (if (if right then a ! (lo + (hi - lo) div 2) \<le> v else a ! (lo + (hi - lo) div 2) < v)
         then bisect right a v (lo + (hi - lo) div 2 + 1) hi
         else bisect right a v lo (lo + (hi - lo) div 2))
      else lo)"
  by pat_completeness auto
termination
  by (relation "measure (\<lambda>(right, a, v, lo, hi). hi - lo)") auto

declare bisect.simps [simp del]

definition searchsorted_left :: "real list \<Rightarrow> real \<Rightarrow> nat" where
  "searchsorted_left a v = bisect False a v 0 (length a)"

definition searchsorted_right :: "real list \<Rightarrow> real \<Rightarrow> nat" where
  "searchsorted_right a v = bisect True a v 0 (length a)"

text \<open>\<^verbatim>\<open>np.insert(a, i, x)\<close> for \<open>0 \<le> i \<le> len(a)\<close>.\<close>

definition np_insert :: "'a list \<Rightarrow> nat \<Rightarrow> 'a \<Rightarrow> 'a list" where
  "np_insert a i x = take i a @ [x] @ drop i a"

subsection \<open>Fetching one signal: \<^verbatim>\<open>get_history\<close>\<close>

definition timeDiff_sec :: real where
  "timeDiff_sec = 7 * 3600"

text \<open>
  The archiver is a parameter: \<open>service pv\<close> is the \<^verbatim>\<open>data\<close> array answered for the
  signal \<open>pv\<close>, or \<open>None\<close> when the request, the JSON decoding or the access to
  \<^verbatim>\<open>data[0]['data']\<close> and its fields raises. Every exception inside the \<^verbatim>\<open>try\<close> block gives
  the empty dictionary and a warning; \<^verbatim>\<open>self.__startTime.strftime\<close> is evaluated before
  the \<^verbatim>\<open>try\<close>, so an object without start time raises to the caller.

  \<^verbatim>\<open>np.argsort\<close> is modelled by a stable sort; numpy's default sort may order samples
  of equal timestamp differently, which changes the order of their values only.
\<close>

datatype fetch_warning = NotValid string

definition boundary_extend ::
  "real \<Rightarrow> real \<Rightarrow> real list \<Rightarrow> real list \<Rightarrow> frame" where
  "boundary_extend start_time_ts end_time_ts secs0 vals0 =
     (let start_index = searchsorted_left secs0 start_time_ts;
          start_val = (if start_index = 0 then vals0 ! 0 else vals0 ! (start_index - 1));
          end_index = searchsorted_right secs0 end_time_ts;
          end_val = (if end_index = length secs0 then last vals0 else vals0 ! end_index);
          secs1 = np_insert secs0 start_index start_time_ts;
          vals1 = np_insert vals0 start_index start_val;
          secs2 = np_insert secs1 (end_index + 1) end_time_ts;
          vals2 = np_insert vals1 (end_index + 1) end_val;
          sorted_pairs = sort_key fst (zip secs2 vals2);
          valid = filter (\<lambda>(t, x). start_time_ts \<le> t \<and> t \<le> end_time_ts) sorted_pairs
      in valid)"

definition get_history ::
  "(string \<Rightarrow> archiver_point list option) \<Rightarrow> retriever \<Rightarrow> string
     \<Rightarrow> py_error + (frame option \<times> fetch_warning option)" where
  "get_history service self pv_name =
     (case startTime self of
        None \<Rightarrow> Inl AttributeError
      | Some start_time_ts \<Rightarrow>
          (case service pv_name of
             None \<Rightarrow> Inr (None, Some (NotValid pv_name))
           | Some data \<Rightarrow>
               (if data = [] then Inr (None, Some (NotValid pv_name))
                else Inr (Some (boundary_extend start_time_ts (endTime self)
                             (map (\<lambda>x. real_of_int (p_secs x) + real_of_int (p_nanos x) / 10 ^ 9
                                        + timeDiff_sec) data)
                             (map p_val data)), None))))"

subsection \<open>Fetching all signals: \<^verbatim>\<open>getHistory\<close>\<close>

text \<open>
  One task per entry of \<^verbatim>\<open>pvNames\<close> is submitted to the thread pool;
  \<^verbatim>\<open>as_completed\<close> yields the futures in the order in which they finish. That order is
  the parameter \<open>completion\<close>: the positions \<open>0..<N\<close> of the submitted tasks, each once,
  in completion order. The result of each finished task is appended to the list
  \<^verbatim>\<open>self.__rawData\<close>; afterwards the list is zipped with \<^verbatim>\<open>pvNames\<close> into the dictionary.
  Line 203 needs \<^verbatim>\<open>duration_hour\<close> to be a number. A task that raised re-raises at
  \<^verbatim>\<open>future.result()\<close>.
\<close>

fun collect_results ::
  "(string \<Rightarrow> archiver_point list option) \<Rightarrow> retriever \<Rightarrow> nat list
     \<Rightarrow> outcome \<times> retriever" where
  "collect_results service self [] = (Returned, self)"
| "collect_results service self (j # js) =
     (case get_history service self (pvNames self ! j) of
        Inl e \<Rightarrow> (Raised e, self)
      | Inr (data, error) \<Rightarrow>
          collect_results service
            (self\<lparr>rawData := RawList ((case rawData self of RawList l \<Rightarrow> l | RawDict d \<Rightarrow> []) @ [data])\<rparr>)
            js)"

definition getHistory ::
  "(string \<Rightarrow> archiver_point list option) \<Rightarrow> nat list \<Rightarrow> retriever
     \<Rightarrow> outcome \<times> retriever" where
  "getHistory service completion self =
     (case duration_hour self of
        None \<Rightarrow> (Raised TypeError, self)
      | Some d \<Rightarrow>
          (case collect_results service (self\<lparr>rawData := RawList []\<rparr>) completion of
             (Raised e, self') \<Rightarrow> (Raised e, self')
           | (Returned, self') \<Rightarrow>
               (Returned,
                self'\<lparr>rawData :=
                   RawDict (dict_of (zip (pvNames self')
                      (case rawData self' of RawList l \<Rightarrow> l | RawDict d \<Rightarrow> [])))\<rparr>)))"

subsection \<open>More numpy: \<^verbatim>\<open>cumsum\<close>, \<^verbatim>\<open>interp\<close>, \<^verbatim>\<open>arange\<close>\<close>

fun cumsum_from :: "real \<Rightarrow> real list \<Rightarrow> real list" where
  "cumsum_from s [] = []"
| "cumsum_from s (x # xs) = (s + x) # cumsum_from (s + x) xs"

definition np_cumsum :: "real list \<Rightarrow> real list" where
  "np_cumsum xs = cumsum_from 0 xs"

text \<open>
  \<^verbatim>\<open>np.interp(x, xp, fp, left=np.nan, right=np.nan)\<close> at one query point, as numpy's
  \<^verbatim>\<open>arr_interp\<close> computes it: not-a-number left of \<open>xp[0]\<close> and right of \<open>xp[-1]\<close>;
  otherwise with \<open>j\<close> the position found by the search (the scan
  \<^verbatim>\<open>for (i = 1; i < len && key >= arr[i]; ++i); return i - 1\<close>, which is also what the
  bisection for longer arrays returns when \<open>xp\<close> is ascending), the value \<open>fp[j]\<close> when
  \<open>j\<close> is the last position or \<open>xp[j] = x\<close>, else the point on the segment from \<open>j\<close> to
  \<open>j + 1\<close>, which is not-a-number as soon as one end of the segment is.
\<close>

definition interp_at :: "real list \<Rightarrow> real option list \<Rightarrow> real \<Rightarrow> real option" where
  "interp_at xp fp x =
     (if x < xp ! 0 then None
      else if last xp < x then None
      else if length xp = 1 then fp ! 0
      else
        (let j = length (takeWhile (\<lambda>a. a \<le> x) (tl xp)) in
         if j = length xp - 1 then fp ! j
         else if xp ! j = x then fp ! j
         else (case (fp ! j, fp ! (j + 1)) of
                 (Some y0, Some y1) \<Rightarrow>
                   Some ((y1 - y0) / (xp ! (j + 1) - xp ! j) * (x - xp ! j) + y0)
               | _ \<Rightarrow> None)))"

definition np_interp ::
  "real list \<Rightarrow> real list \<Rightarrow> real option list \<Rightarrow> py_error + real option list" where
  "np_interp x xp fp =
     (if xp = [] \<or> length fp \<noteq> length xp then Inl ValueError
      else Inr (map (interp_at xp fp) x))"

text \<open>\<^verbatim>\<open>np.arange(start, stop, step)\<close>: \<open>ceil((stop - start) / step)\<close> points
  \<open>start + i * step\<close>, none when that number is not positive; a zero step has no
  length and raises.\<close>

definition np_arange :: "real \<Rightarrow> real \<Rightarrow> real \<Rightarrow> py_error + real list" where
  "np_arange start stop step =
     (if step = 0 then Inl ArangeError
      else Inr (map (\<lambda>i. start + real i * step) [0..<nat \<lceil>(stop - start) / step\<rceil>]))"

subsection \<open>Alignment: \<^verbatim>\<open>alignHistory\<close>\<close>

text \<open>Lines 323 to 330: the keep mask, accumulated over the configured ranges. The
  accumulator starts as the empty list and is replaced by the first mask.\<close>

fun keep_mask :: "real list list \<Rightarrow> real list \<Rightarrow> bool list \<Rightarrow> py_error + bool list" where
  "keep_mask [] v idt = Inr idt"
| "keep_mask (r # rs) v idt =
     (if length r < 2 then Inl IndexError
      else
        (let idt_k = map (\<lambda>x. r ! 0 \<le> x \<and> x \<le> r ! 1) v
         in keep_mask rs v (if length idt = 0 then idt_k else map2 (\<or>) idt idt_k)))"

text \<open>\<^verbatim>\<open>np.where(idt)[0]\<close>.\<close>

definition where_true :: "bool list \<Rightarrow> nat list" where
  "where_true m = filter (\<lambda>i. m ! i) [0..<length m]"

text \<open>Lines 323 to 333. A flat list of numbers as \<^verbatim>\<open>val_range\<close> fails at the first
  subscript \<^verbatim>\<open>val_range[0]\<close> of a number.\<close>

definition trim_idt :: "range_arg \<Rightarrow> real list \<Rightarrow> py_error + nat list" where
  "trim_idt vr v =
     (case vr of
        Flat xs \<Rightarrow> (if xs = [] then Inr [] else Inl TypeError)
      | Nested rs \<Rightarrow>
          (case keep_mask rs v [] of
             Inl e \<Rightarrow> Inl e
           | Inr m \<Rightarrow> Inr (remdups_adj (sort (where_true m)))))"

text \<open>Line 340: \<^verbatim>\<open>1 + np.where(np.diff(idt) > 1)[0]\<close>, positions within \<open>idt\<close>.\<close>

definition breaks :: "nat list \<Rightarrow> nat list" where
  "breaks idt =
     map (\<lambda>i. 1 + i)
       (filter (\<lambda>i. int (idt ! (i + 1)) - int (idt ! i) > 1) [0..<length idt - 1])"

text \<open>Lines 341 to 344.\<close>

definition time_inv0 :: "real list \<Rightarrow> nat list \<Rightarrow> real list" where
  "time_inv0 relTime idt =
     0 # map (\<lambda>i. relTime ! (idt ! (i + 1)) - relTime ! (idt ! i)) [0..<length idt - 1]"

definition bridged_time_cum :: "real \<Rightarrow> real list \<Rightarrow> nat list \<Rightarrow> real list" where
  "bridged_time_cum bridge relTime idt =
     np_cumsum (fold (\<lambda>p time_inv. time_inv[p := bridge]) (breaks idt) (time_inv0 relTime idt))"

text \<open>The local variables of \<^verbatim>\<open>alignHistory\<close> after the \<^verbatim>\<open>if\<close>/\<^verbatim>\<open>else\<close> of lines 317 to
  344. \<^verbatim>\<open>diff_idt\<close> is assigned in the trimming branch only: \<open>None\<close> is the unbound
  variable.\<close>

datatype locals =
  Locals (l_relTime: "real list") (l_time_cum: "real list") (l_idt: "nat list")
    (l_diff_idt: "nat list option")

datatype 'a flow = Continue 'a | Return | Raise py_error

definition trim_stage :: "align_setup \<Rightarrow> frame \<Rightarrow> locals flow" where
  "trim_stage setup ref =
     (let timeRange = secs ref;
          relTime = map (\<lambda>t. t - timeRange ! 0) timeRange
      in if \<not> Trim setup
         then Continue (Locals relTime relTime [0..<length timeRange] None)
         else (case trim_idt (val_range setup) (vals ref) of
                 Inl e \<Rightarrow> Raise e
               | Inr idt \<Rightarrow>
                   (if length idt = 0 then Return
                    else Continue (Locals relTime
                           (bridged_time_cum (disTimeAddBack_sec setup) relTime idt)
                           idt (Some (breaks idt))))))"

text \<open>\<^verbatim>\<open>self.__rawData[key]\<close>: a list cannot be subscripted by a name.\<close>

definition lookup_raw :: "raw \<Rightarrow> string option \<Rightarrow> py_error + frame option" where
  "lookup_raw rd key =
     (case rd of
        RawList l \<Rightarrow> Inl TypeError
      | RawDict d \<Rightarrow>
          (case key of
             None \<Rightarrow> Inl KeyError
           | Some k \<Rightarrow> (case map_of d k of None \<Rightarrow> Inl KeyError | Some f \<Rightarrow> Inr f)))"

text \<open>Lines 347 to 351: the synchronized start time.\<close>

definition sync_startTime :: "real list \<Rightarrow> nat list \<Rightarrow> real" where
  "sync_startTime timeRange diff_idt =
     (if length diff_idt = 0 then timeRange ! 0 else timeRange ! (diff_idt ! 0))"

text \<open>Lines 306 to 356 on an object whose raw data is in place: the reference signal,
  the kept indices, the cumulated time axis and the start time, stored in the
  dictionary \<^verbatim>\<open>self.__synData\<close> with a matrix of zeros.\<close>

definition align_axis :: "retriever \<Rightarrow> (frame \<times> locals) flow \<times> retriever" where
  "align_axis self0 =
     (let self = self0\<lparr>synData := SynDict None [] [] None\<rparr>;
          setup = alignSetup self
      in case lookup_raw (rawData self) (base_pv setup) of
           Inl e \<Rightarrow> (Raise e, self)
         | Inr None \<Rightarrow> (Raise KeyError, self)
         | Inr (Some ref) \<Rightarrow>
             (if ref = [] then (Raise IndexError, self)
              else (case trim_stage setup ref of
                      Raise e \<Rightarrow> (Raise e, self)
                    | Return \<Rightarrow> (Return, self)
                    | Continue loc \<Rightarrow>
                        (case l_diff_idt loc of
                           None \<Rightarrow> (Raise UnboundLocalError, self)
                         | Some diff_idt \<Rightarrow>
                             (Continue (ref, loc),
                              self\<lparr>synData :=
                                SynDict (Some (sync_startTime (secs ref) diff_idt))
                                  (l_time_cum loc)
                                  (replicate (length (pvNames self))
                                     (replicate (length (l_time_cum loc)) (Some 0)))
                                  None\<rparr>)))))"

text \<open>Lines 359 to 371: the row of one signal at the kept samples.\<close>

definition align_row ::
  "raw \<Rightarrow> string option \<Rightarrow> real list \<Rightarrow> nat list \<Rightarrow> string
     \<Rightarrow> py_error + real option list" where
  "align_row rd base relTime idt pv =
     (case lookup_raw rd (Some pv) of
        Inl e \<Rightarrow> Inl e
      | Inr raw_data \<Rightarrow>
          (if Some pv = base then
             (case raw_data of
                None \<Rightarrow> Inl KeyError
              | Some f \<Rightarrow> Inr (map (\<lambda>i. Some (vals f ! i)) idt))
           else
             (case raw_data of
                None \<Rightarrow> Inl KeyError
              | Some f \<Rightarrow>
                  (if length (secs f) = 1
                   then Inr (replicate (length idt) (Some (vals f ! 0)))
                   else if secs f = [] then Inl IndexError
                   else np_interp (map (\<lambda>i. relTime ! i) idt)
                          (map (\<lambda>t. t - secs f ! 0) (secs f))
                          (map Some (vals f))))))"

text \<open>The loop of line 358 over \<^verbatim>\<open>enumerate(self.__pvNames)\<close>, writing row \<open>i\<close> of the
  matrix; an exception leaves the rows written so far.\<close>

fun fill_rows ::
  "raw \<Rightarrow> string option \<Rightarrow> real list \<Rightarrow> nat list \<Rightarrow> (nat \<times> string) list
     \<Rightarrow> real option list list \<Rightarrow> py_error option \<times> real option list list" where
  "fill_rows rd base relTime idt [] m = (None, m)"
| "fill_rows rd base relTime idt ((i, pv) # rest) m =
     (case align_row rd base relTime idt pv of
        Inl e \<Rightarrow> (Some e, m)
      | Inr row \<Rightarrow> fill_rows rd base relTime idt rest (m[i := row]))"

text \<open>The list comprehension of lines 383 to 386.\<close>

fun interp_rows ::
  "real list \<Rightarrow> real list \<Rightarrow> real option list list \<Rightarrow> py_error + real option list list" where
  "interp_rows reSample xp [] = Inr []"
| "interp_rows reSample xp (row # rows) =
     (case np_interp reSample xp row of
        Inl e \<Rightarrow> Inl e
      | Inr r \<Rightarrow>
          (case interp_rows reSample xp rows of
             Inl e \<Rightarrow> Inl e
           | Inr rs \<Rightarrow> Inr (r # rs)))"

text \<open>Lines 358 to 373, after \<open>align_axis\<close> has continued with the reference frame and
  the local variables: the rows of the matrix, then the cut of the columns to the
  length of the reference. The result is the exception raised, if any, and the object
  with the matrix as far as it was written.\<close>

definition align_rows :: "frame \<times> locals \<Rightarrow> retriever \<Rightarrow> py_error option \<times> retriever" where
  "align_rows fl self =
     (let loc = snd fl;
          time_cum = l_time_cum loc;
          setup = alignSetup self;
          start = syn_startTime (synData self)
      in case fill_rows (rawData self) (base_pv setup) (l_relTime loc) (l_idt loc)
                (zip [0..<length (pvNames self)] (pvNames self)) (syn_vals (synData self)) of
           (Some e, m) \<Rightarrow> (Some e, self\<lparr>synData := SynDict start time_cum m None\<rparr>)
         | (None, m) \<Rightarrow>
             (None,
              self\<lparr>synData :=
                SynDict start time_cum (map (take (length (l_relTime loc))) m) None\<rparr>))"

text \<open>Lines 378 to 396: the uniform grid from the local variable \<^verbatim>\<open>time_cum\<close>, the rows
  of \<^verbatim>\<open>self.__synData['vals']\<close> interpolated on it against \<^verbatim>\<open>self.__synData['relTime']\<close>, and
  the final data frame.\<close>

definition resample :: "real list \<Rightarrow> retriever \<Rightarrow> outcome \<times> retriever" where
  "resample time_cum self =
     (if time_cum = [] then (Raised IndexError, self)
      else (case np_arange (time_cum ! 0) (last time_cum) (dtResample_sec (alignSetup self)) of
              Inl e \<Rightarrow> (Raised e, self)
            | Inr reSample \<Rightarrow>
                (if length (syn_relTime (synData self)) = 0 then (Returned, self)
                 else (case interp_rows reSample (syn_relTime (synData self))
                              (syn_vals (synData self)) of
                         Inl e \<Rightarrow> (Raised e, self)
                       | Inr rows \<Rightarrow>
                           (Returned,
                            self\<lparr>synData :=
                              SynFrame reSample (dict_of (zip (pvNames self) rows))
                                (last time_cum / 3600)\<rparr>)))))"

text \<open>Lines 358 to 396.\<close>

definition align_rows_resample :: "frame \<times> locals \<Rightarrow> retriever \<Rightarrow> outcome \<times> retriever" where
  "align_rows_resample fl self =
     (case align_rows fl self of
        (Some e, self') \<Rightarrow> (Raised e, self')
      | (None, self') \<Rightarrow> resample (l_time_cum (snd fl)) self')"

text \<open>\<^verbatim>\<open>not self.__rawData\<close>: an empty list and an empty dictionary are false.\<close>

definition raw_is_empty :: "raw \<Rightarrow> bool" where
  "raw_is_empty rd = (case rd of RawList l \<Rightarrow> l = [] | RawDict d \<Rightarrow> d = [])"

definition alignHistory ::
  "(string \<Rightarrow> archiver_point list option) \<Rightarrow> nat list \<Rightarrow> bool \<Rightarrow> retriever
     \<Rightarrow> outcome \<times> retriever" where
  "alignHistory service completion getHistory_arg self0 =
     (case (if getHistory_arg \<and> raw_is_empty (rawData self0)
            then getHistory service completion self0 else (Returned, self0)) of
        (Raised e, self1) \<Rightarrow> (Raised e, self1)
      | (Returned, self1) \<Rightarrow>
          (case align_axis self1 of
             (Raise e, self2) \<Rightarrow> (Raised e, self2)
           | (Return, self2) \<Rightarrow> (Returned, self2)
           | (Continue fl, self2) \<Rightarrow> align_rows_resample fl self2))"

subsection \<open>Configuration: \<^verbatim>\<open>set_base_pv\<close> and \<^verbatim>\<open>set_property\<close>\<close>

text \<open>The alignment setup that the constructor builds when none is given.\<close>

definition default_alignSetup :: "string list \<Rightarrow> align_setup" where
  "default_alignSetup names =
     \<lparr>base_id = Some 0, base_pv = Some (names ! 0), val_range = Nested [[10 ^ 3, 10 ^ 5]],
      disTimeAddBack_sec = 1, dtResample_sec = 1, Trim = True\<rparr>"

text \<open>\<^verbatim>\<open>set_base_pv\<close>. The assignments after each \<^verbatim>\<open>raise\<close> (lines 98 and 102) are never
  executed. Lines 107 to 112 wrap a flat pair of numbers into a list of one range.\<close>

definition wrap_val_range :: "range_arg \<Rightarrow> range_arg" where
  "wrap_val_range vr =
     (case vr of Flat xs \<Rightarrow> (if length xs = 2 then Nested [xs] else Flat xs) | Nested rs \<Rightarrow> Nested rs)"

definition set_base_pv ::
  "string option \<Rightarrow> int option \<Rightarrow> range_arg \<Rightarrow> real \<Rightarrow> real \<Rightarrow> bool \<Rightarrow> retriever
     \<Rightarrow> outcome \<times> retriever" where
  "set_base_pv base_pv_arg base_id_arg val_range_arg disTimeAddBack dtResample Trim_arg self =
     (let stored = self\<lparr>alignSetup :=
            \<lparr>base_id = base_id_arg, base_pv = base_pv_arg,
             val_range = wrap_val_range val_range_arg,
             disTimeAddBack_sec = disTimeAddBack, dtResample_sec = dtResample,
             Trim = Trim_arg\<rparr>\<rparr>
      in if base_pv_arg \<noteq> None \<and> base_pv_arg \<noteq> Some []
         then (if the base_pv_arg \<notin> set (pvNames self) then (Raised ValueError, self)
               else (Returned, stored))
         else if base_id_arg \<noteq> None
         then (if the base_id_arg < 0 \<or> int (length (pvNames self)) \<le> the base_id_arg
               then (Raised ValueError, self)
               else (Returned, stored))
         else (Raised ValueError, self))"

text \<open>
  \<^verbatim>\<open>set_property(property_name, value)\<close>. A value is \<^verbatim>\<open>None\<close>, a string, a number, a list
  of strings, or a dictionary, given by its keys and by the alignment setup it holds
  when the six required keys are present.

  The \<^verbatim>\<open>datetime\<close> library is a parameter of the method: \<open>lib_strptime\<close> reads a date text,
  \<open>lib_plus_hours t h\<close> is \<^verbatim>\<open>t + timedelta(hours=h)\<close> and \<open>lib_minus_hours t h\<close> is
  \<^verbatim>\<open>t - timedelta(hours=h)\<close>; each gives the exception that the library raises (a text
  that is not in the format, a duration or a date out of range) or the date.
\<close>

record datetime_lib =
  lib_strptime :: "string \<Rightarrow> py_error + real"
  lib_plus_hours :: "real \<Rightarrow> real \<Rightarrow> py_error + real"
  lib_minus_hours :: "real \<Rightarrow> real \<Rightarrow> py_error + real"

datatype pyval =
  PNone | PStr string | PNum real | PList "string list" | PDict "string list" align_setup

definition private_attributes :: "string list" where
  "private_attributes =
     [''pvNames'', ''alignSetup'', ''webServer'', ''endTime'', ''duration_hour'', ''startTime'',
      ''rawData'', ''synData'']"

definition required_keys :: "string list" where
  "required_keys =
     [''base_id'', ''base_pv'', ''val_range'', ''disTimeAddBack_sec'', ''dtResample_sec'', ''Trim'']"

text \<open>Lines 146 to 153. The first of the two assignments is made before the second
  date is computed; \<^verbatim>\<open>timedelta(hours=None)\<close> is a type error.\<close>

definition set_time ::
  "datetime_lib \<Rightarrow> string \<Rightarrow> pyval \<Rightarrow> retriever \<Rightarrow> outcome \<times> retriever" where
  "set_time lib property_name v self =
     (case v of
        PStr text \<Rightarrow>
          (case lib_strptime lib text of
             Inl e \<Rightarrow> (Raised e, self)
           | Inr t \<Rightarrow>
               (if property_name = ''startTime'' then
                  (case duration_hour self of
                     None \<Rightarrow> (Raised TypeError, self\<lparr>startTime := Some t\<rparr>)
                   | Some d \<Rightarrow>
                       (case lib_plus_hours lib t d of
                          Inl e \<Rightarrow> (Raised e, self\<lparr>startTime := Some t\<rparr>)
                        | Inr t' \<Rightarrow> (Returned, self\<lparr>startTime := Some t, endTime := t'\<rparr>)))
                else
                  (case duration_hour self of
                     None \<Rightarrow> (Raised TypeError, self\<lparr>endTime := t\<rparr>)
                   | Some d \<Rightarrow>
                       (case lib_minus_hours lib t d of
                          Inl e \<Rightarrow> (Raised e, self\<lparr>endTime := t\<rparr>)
                        | Inr t' \<Rightarrow> (Returned, self\<lparr>endTime := t, startTime := Some t'\<rparr>)))))
      | _ \<Rightarrow> (Raised TypeError, self))"

text \<open>Lines 142 to 169. An attribute that exists and that no branch handles
  (\<^verbatim>\<open>webServer\<close>, \<^verbatim>\<open>rawData\<close>, \<^verbatim>\<open>synData\<close>, and \<^verbatim>\<open>pvNames\<close> with a value that is not a
  string) falls through every \<^verbatim>\<open>if\<close>.\<close>

definition set_property ::
  "datetime_lib \<Rightarrow> string \<Rightarrow> pyval \<Rightarrow> retriever \<Rightarrow> outcome \<times> retriever" where
  "set_property lib property_name v self =
     (if property_name \<in> set private_attributes then
        (if property_name = ''pvNames''
         then (case v of PStr n \<Rightarrow> (Returned, self\<lparr>pvNames := [n]\<rparr>) | _ \<Rightarrow> (Returned, self))
         else if property_name = ''endTime'' \<or> property_name = ''startTime''
         then set_time lib property_name v self
         else if property_name = ''duration_hour''
         then (case v of
                 PNum d \<Rightarrow>
                   (case lib_minus_hours lib (endTime self) d of
                      Inl e \<Rightarrow> (Raised e, self\<lparr>duration_hour := Some d\<rparr>)
                    | Inr t \<Rightarrow> (Returned, self\<lparr>duration_hour := Some d, startTime := Some t\<rparr>))
               | _ \<Rightarrow> (Raised ValueError, self))
         else if property_name = ''alignSetup''
         then (case v of
                 PDict keys setup \<Rightarrow>
                   (if set required_keys \<subseteq> set keys then (Returned, self\<lparr>alignSetup := setup\<rparr>)
                    else (Raised ValueError, self))
               | _ \<Rightarrow> (Raised ValueError, self))
         else (Returned, self))
      else (Raised AttributeError, self))"

text \<open>\<^verbatim>\<open>set_property(dict)\<close>: the properties are set one after the other.\<close>

fun set_properties ::
  "datetime_lib \<Rightarrow> (string \<times> pyval) list \<Rightarrow> retriever \<Rightarrow> outcome \<times> retriever" where
  "set_properties lib [] self = (Returned, self)"
| "set_properties lib ((k, v) # kvs) self =
     (case set_property lib k v self of
        (Raised e, self') \<Rightarrow> (Raised e, self')
      | (Returned, self') \<Rightarrow> set_properties lib kvs self')"

subsection \<open>Concrete objects and archiver answers\<close>

text \<open>An archiver holding one sample for each of the signals \<open>A\<close> and \<open>B\<close>, five
  seconds into the window, and an object configured for both signals.\<close>

definition two_service :: "string \<Rightarrow> archiver_point list option" where
  "two_service pv =
     (if pv = ''A'' then Some [\<lparr>p_secs = 5, p_nanos = 0, p_val = 1\<rparr>]
      else if pv = ''B'' then Some [\<lparr>p_secs = 5, p_nanos = 0, p_val = 2\<rparr>]
      else None)"

definition two_self :: retriever where
  "two_self =
     \<lparr>pvNames = [''A'', ''B''], alignSetup = default_alignSetup [''A'', ''B''],
      webServer = ''http://lcls-archapp.slac.stanford.edu/retrieval/data/getData.json?pv='',
      endTime = 25210, duration_hour = Some (1 / 360), startTime = Some 25200,
      rawData = RawList [], synData = SynList\<rparr>"


text \<open>An object holding the raw data of a reference signal \<open>R\<close> and a second signal
  \<open>S\<close>, and an aligned data frame from an earlier alignment. The reference leaves the
  range \<open>[1, 10]\<close> at its two middle samples.\<close>

definition gap_self :: retriever where
  "gap_self =
     \<lparr>pvNames = [''R'', ''S''],
      alignSetup =
        \<lparr>base_id = Some 0, base_pv = Some ''R'', val_range = Nested [[1, 10]],
         disTimeAddBack_sec = 1, dtResample_sec = 1, Trim = True\<rparr>,
      webServer = ''http://lcls-archapp.slac.stanford.edu/retrieval/data/getData.json?pv='',
      endTime = 3, duration_hour = Some (1 / 1200), startTime = Some 0,
      rawData =
        RawDict [(''R'', Some [(0, 5), (1, 0), (2, 0), (3, 5)]),
                 (''S'', Some [(0, 0), (1, 10), (2, 20), (3, 30)])],
      synData = SynFrame [0] [(''R'', [Some 5]), (''S'', [Some 0])] (1 / 3600)\<rparr>"

text \<open>The same object with a reference signal whose first sample only is out of range.\<close>

definition lead_self :: retriever where
  "lead_self =
     gap_self\<lparr>rawData :=
        RawDict [(''R'', Some [(10, 0), (11, 5), (12, 5), (13, 5)]),
                 (''S'', Some [(10, 0), (11, 10), (12, 20), (13, 30)])]\<rparr>"

text \<open>The same object with trimming switched off, and with a range that no value of
  the reference signal meets.\<close>

definition no_trim_self :: retriever where
  "no_trim_self = gap_self\<lparr>alignSetup := (alignSetup gap_self)\<lparr>Trim := False\<rparr>\<rparr>"

definition out_of_range_self :: retriever where
  "out_of_range_self =
     gap_self\<lparr>alignSetup := (alignSetup gap_self)\<lparr>val_range := Nested [[100, 200]]\<rparr>\<rparr>"

text \<open>The same object with a reference signal that leaves its range at two samples and
  comes back half a second after the second, and a second signal that ends one second
  before the reference does.\<close>

definition frac_self :: retriever where
  "frac_self =
     gap_self\<lparr>rawData :=
        RawDict [(''R'', Some [(0, 5), (1, 0), (2, 0), (5 / 2, 5), (4, 5)]),
                 (''S'', Some [(0, 0), (1, 10), (2, 20), (3, 30)])]\<rparr>"

text \<open>An object one of whose configured signal names is the empty string.\<close>

definition empty_name_self :: retriever where
  "empty_name_self = gap_self\<lparr>pvNames := ['''', ''R'']\<rparr>"

section \<open>Properties\<close>


subsection \<open>Evaluation of the fetch at concrete inputs\<close>

lemmas fetch_defs = get_history_def boundary_extend_def searchsorted_left_def
  searchsorted_right_def bisect.simps np_insert_def timeDiff_sec_def Let_def

subsection \<open>The samples returned by one fetch\<close>











subsection \<open>The batch of fetches\<close>

text \<open>
  Claim C1. With two configured signals \<open>A\<close> and \<open>B\<close> whose fetches both succeed,
  \<^verbatim>\<open>getHistory\<close> returns; when the task of \<open>B\<close> completes first, the dictionary maps \<open>A\<close>
  to the samples fetched for \<open>B\<close> and \<open>B\<close> to those fetched for \<open>A\<close>, and it differs
  from the dictionary of the run in which \<open>A\<close> completes first.
\<close>

theorem getHistory_completion_order_swaps:
  "fst (getHistory two_service [1, 0] two_self) = Returned
   \<and> get_history two_service two_self ''A''
       = Inr (Some [(25200, 1), (25205, 1), (25210, 1)], None)
   \<and> get_history two_service two_self ''B''
       = Inr (Some [(25200, 2), (25205, 2), (25210, 2)], None)
   \<and> rawData (snd (getHistory two_service [1, 0] two_self))
       = RawDict [(''A'', Some [(25200, 2), (25205, 2), (25210, 2)]),
                  (''B'', Some [(25200, 1), (25205, 1), (25210, 1)])]
   \<and> rawData (snd (getHistory two_service [0, 1] two_self))
       = RawDict [(''A'', Some [(25200, 1), (25205, 1), (25210, 1)]),
                  (''B'', Some [(25200, 2), (25205, 2), (25210, 2)])]"
  by (simp add: getHistory_def fetch_defs two_service_def two_self_def dict_of_def)

subsection \<open>Evaluation of the alignment at concrete inputs\<close>

lemmas align_defs = alignHistory_def align_axis_def align_rows_resample_def align_rows_def
  resample_def trim_stage_def
  trim_idt_def where_true_def breaks_def time_inv0_def bridged_time_cum_def np_cumsum_def
  lookup_raw_def sync_startTime_def raw_is_empty_def align_row_def np_interp_def interp_at_def
  np_arange_def secs_def vals_def dict_of_def Let_def

subsection \<open>Alignment without trimming\<close>

text \<open>
  Claim C2. With \<^verbatim>\<open>Trim = False\<close> and a reference signal of four samples, \<^verbatim>\<open>alignHistory\<close>
  does not complete: the branch of lines 319 and 320 binds \<^verbatim>\<open>time_cum\<close> and \<^verbatim>\<open>idt\<close> but
  not \<^verbatim>\<open>diff_idt\<close>, which line 347 reads. The call raises, and the aligned data frame of
  the earlier alignment has been replaced by the empty dictionary of line 310.
\<close>

theorem alignHistory_no_trim_raises:
  "alignHistory two_service [] True no_trim_self
     = (Raised UnboundLocalError, no_trim_self\<lparr>synData := SynDict None [] [] None\<rparr>)"
  by (simp add: align_defs no_trim_self_def gap_self_def)

subsection \<open>Trimming that keeps no sample\<close>

lemma keep_mask_all_false:
  assumes "\<forall>r \<in> set rs. 2 \<le> length r"
      and "\<forall>x \<in> set v. \<forall>r \<in> set rs. \<not> (r ! 0 \<le> x \<and> x \<le> r ! 1)"
      and "\<forall>b \<in> set acc. \<not> b"
  shows "\<exists>m. keep_mask rs v acc = Inr m \<and> (\<forall>b \<in> set m. \<not> b)"
  using assms
proof (induction rs arbitrary: acc)
  case Nil
  then show ?case by simp
next
  case (Cons r rs)
  let ?k = "map (\<lambda>x. r ! 0 \<le> x \<and> x \<le> r ! 1) v"
  let ?acc = "if length acc = 0 then ?k else map2 (\<or>) acc ?k"
  have k: "\<forall>b \<in> set ?k. \<not> b" using Cons.prems(2) by auto
  have "\<forall>b \<in> set (map2 (\<or>) acc ?k). \<not> b"
  proof
    fix b assume "b \<in> set (map2 (\<or>) acc ?k)"
    then obtain p q where "(p, q) \<in> set (zip acc ?k)" "b = (p \<or> q)" by auto
    then have "p \<in> set acc" "q \<in> set ?k" by (auto dest: set_zip_leftD set_zip_rightD)
    with Cons.prems(3) k \<open>b = (p \<or> q)\<close> show "\<not> b" by blast
  qed
  with k have acc: "\<forall>b \<in> set ?acc. \<not> b" by simp
  have rest: "\<forall>r \<in> set rs. 2 \<le> length r" "\<forall>x \<in> set v. \<forall>r \<in> set rs. \<not> (r ! 0 \<le> x \<and> x \<le> r ! 1)"
    using Cons.prems by auto
  from Cons.IH [OF rest acc] obtain m where "keep_mask rs v ?acc = Inr m" "\<forall>b \<in> set m. \<not> b"
    by blast
  moreover have "\<not> length r < 2" using Cons.prems(1) by auto
  then have "keep_mask (r # rs) v acc = keep_mask rs v ?acc"
    by (simp only: keep_mask.simps Let_def if_False)
  ultimately show ?case by simp
qed

lemma where_true_all_false: "\<forall>b \<in> set m. \<not> b \<Longrightarrow> where_true m = []"
  unfolding where_true_def filter_empty_conv
  using nth_mem by fastforce

text \<open>
  Claim C3, as the code has it. When trimming is on, the reference signal is present
  and not empty, every configured range is a list \<open>[low, high]\<close> and no value of the
  reference lies in any range, \<^verbatim>\<open>alignHistory\<close> returns normally (line 337, after
  printing a message): it raises nothing, builds no aligned data frame, and leaves
  \<^verbatim>\<open>self.__synData\<close> as the empty dictionary written at line 310, whatever was stored
  there before; every other field of the object is unchanged.
\<close>

theorem alignHistory_all_out_of_range:
  assumes "rawData self = RawDict d"
      and "base_pv (alignSetup self) = Some ref_name"
      and "map_of d ref_name = Some (Some ref)"
      and "ref \<noteq> []"
      and "Trim (alignSetup self)"
      and "val_range (alignSetup self) = Nested rs"
      and "\<forall>r \<in> set rs. 2 \<le> length r"
      and "\<forall>x \<in> set (vals ref). \<forall>r \<in> set rs. \<not> (r ! 0 \<le> x \<and> x \<le> r ! 1)"
  shows "alignHistory service completion getHistory_arg self
           = (Returned, self\<lparr>synData := SynDict None [] [] None\<rparr>)"
proof -
  from keep_mask_all_false [OF assms(7,8), of "[]"]
  obtain m where m: "keep_mask rs (vals ref) [] = Inr m" "\<forall>b \<in> set m. \<not> b"
    by auto
  then have "trim_idt (Nested rs) (vals ref) = Inr []"
    by (simp add: trim_idt_def where_true_all_false)
  then have ts: "trim_stage (alignSetup self) ref = Return"
    using assms(5,6) by (simp add: trim_stage_def)
  have d: "d \<noteq> []" using assms(3) by auto
  have ax: "align_axis self = (Return, self\<lparr>synData := SynDict None [] [] None\<rparr>)"
    using assms(1-4) ts by (simp add: align_axis_def lookup_raw_def Let_def)
  show ?thesis
    using assms(1) d ax by (simp add: alignHistory_def raw_is_empty_def)
qed


text \<open>The object whose range \<open>[100, 200]\<close> meets no value of its reference signal
  satisfies the hypotheses.\<close>

theorem alignHistory_all_out_of_range_witness:
  "rawData out_of_range_self
     = RawDict [(''R'', Some [(0, 5), (1, 0), (2, 0), (3, 5)]),
                (''S'', Some [(0, 0), (1, 10), (2, 20), (3, 30)])]
   \<and> base_pv (alignSetup out_of_range_self) = Some ''R''
   \<and> Trim (alignSetup out_of_range_self)
   \<and> val_range (alignSetup out_of_range_self) = Nested [[100, 200]]
   \<and> alignHistory two_service [] False out_of_range_self
       = (Returned, out_of_range_self\<lparr>synData := SynDict None [] [] None\<rparr>)"
proof -
  have h1: "rawData out_of_range_self
     = RawDict [(''R'', Some [(0, 5), (1, 0), (2, 0), (3, 5)]),
                (''S'', Some [(0, 0), (1, 10), (2, 20), (3, 30)])]"
    by (simp add: out_of_range_self_def gap_self_def)
  have h2: "base_pv (alignSetup out_of_range_self) = Some ''R''"
    by (simp add: out_of_range_self_def gap_self_def)
  have h3: "map_of [(''R'', Some [(0, 5), (1, 0), (2, 0), (3, 5)]),
                    (''S'', Some [(0, 0), (1, 10), (2, 20), (3, 30)])] ''R''
              = Some (Some [(0, 5), (1, 0), (2, 0), (3, 5::real)])"
    by simp
  have h4: "[(0, 5), (1, 0), (2, 0), (3, 5::real)] \<noteq> ([] :: frame)"
    by simp
  have h5: "Trim (alignSetup out_of_range_self)"
    by (simp add: out_of_range_self_def gap_self_def)
  have h6: "val_range (alignSetup out_of_range_self) = Nested [[100, 200]]"
    by (simp add: out_of_range_self_def gap_self_def)
  have h7: "\<forall>r \<in> set [[100, 200 :: real]]. 2 \<le> length r"
    by simp
  have h8: "\<forall>x \<in> set (vals [(0, 5), (1, 0), (2, 0), (3, 5)]).
              \<forall>r \<in> set [[100, 200 :: real]]. \<not> (r ! 0 \<le> x \<and> x \<le> r ! 1)"
    by (simp add: vals_def)
  from alignHistory_all_out_of_range [OF h1 h2 h3 h4 h5 h6 h7 h8] h1 h2 h5 h6
  show ?thesis by blast
qed

text \<open>Claim C3 as stated fails: on that object the call returns instead of raising,
  and the aligned data frame stored by the earlier alignment is gone.\<close>

theorem alignHistory_out_of_range_returns:
  "alignHistory two_service [] True out_of_range_self
     = (Returned, out_of_range_self\<lparr>synData := SynDict None [] [] None\<rparr>)
   \<and> synData out_of_range_self = SynFrame [0] [(''R'', [Some 5]), (''S'', [Some 0])] (1 / 3600)"
  by (simp add: align_defs out_of_range_self_def gap_self_def)

subsection \<open>The synchronized start time\<close>

text \<open>
  Claim C5. The reference signal of the first object has its first sample out of range
  and the three others in range: the kept indices are \<open>[1, 2, 3]\<close>, there is no break, and
  the start time stored at line 349 is the first raw timestamp \<open>10\<close>, that of the sample
  trimmed away, while the first kept timestamp is \<open>11\<close>. The reference signal of the
  second object leaves its range at its two middle samples: the kept indices are
  \<open>[0, 3]\<close>, the first break is at position \<open>1\<close> of them, and the start time stored at line
  351 is the raw timestamp \<open>1\<close> of index \<open>1\<close>, a sample trimmed away, neither the first
  kept timestamp \<open>0\<close> nor the timestamp \<open>3\<close> of the kept sample at the break.
\<close>

theorem sync_startTime_leading_trim:
  "fst (align_axis lead_self)
     = Continue ([(10, 0), (11, 5), (12, 5), (13, 5)],
                 Locals [0, 1, 2, 3] [0, 1, 2] [1, 2, 3] (Some []))
   \<and> synData (snd (align_axis lead_self))
     = SynDict (Some 10) [0, 1, 2] [[Some 0, Some 0, Some 0], [Some 0, Some 0, Some 0]] None
   \<and> secs [(10, 0), (11, 5), (12, 5), (13, 5)] ! ([1, 2, 3] ! 0) = 11
   \<and> fst (align_axis gap_self)
     = Continue ([(0, 5), (1, 0), (2, 0), (3, 5)], Locals [0, 1, 2, 3] [0, 1] [0, 3] (Some [1]))
   \<and> synData (snd (align_axis gap_self))
     = SynDict (Some 1) [0, 1] [[Some 0, Some 0], [Some 0, Some 0]] None"
  by (simp add: align_defs lead_self_def gap_self_def)

subsection \<open>The bridged cumulative time axis\<close>

lemma where_true_sorted: "sorted_wrt (<) (where_true m)"
  unfolding where_true_def
  by (rule sorted_wrt_filter) (simp add: strict_sorted_iff)

lemma where_true_bound: "i \<in> set (where_true m) \<Longrightarrow> i < length m \<and> m ! i"
  by (simp add: where_true_def)

lemma unique_sort_id: "sorted_wrt (<) (xs :: nat list) \<Longrightarrow> remdups_adj (sort xs) = xs"
  by (simp add: strict_sorted_iff sorted_sort_id remdups_adj_distinct)

lemma keep_mask_length:
  "keep_mask rs v acc = Inr m \<Longrightarrow> acc = [] \<or> length acc = length v
     \<Longrightarrow> m = [] \<or> length m = length v"
proof (induction rs arbitrary: acc)
  case Nil
  then show ?case by auto
next
  case (Cons r rs)
  from Cons.prems(1) have len: "\<not> length r < 2"
    by (auto split: if_splits)
  let ?k = "map (\<lambda>x. r ! 0 \<le> x \<and> x \<le> r ! 1) v"
  let ?acc = "if length acc = 0 then ?k else map2 (\<or>) acc ?k"
  from Cons.prems(1) len have "keep_mask rs v ?acc = Inr m"
    by (auto simp: Let_def split: if_splits)
  moreover have "?acc = [] \<or> length ?acc = length v"
    using Cons.prems(2) by auto
  ultimately show ?case by (rule Cons.IH)
qed

lemma trim_idt_sorted:
  assumes "trim_idt vr v = Inr idt"
  shows "sorted_wrt (<) idt \<and> (\<forall>i \<in> set idt. i < length v)"
proof (cases vr)
  case (Flat xs)
  with assms show ?thesis by (auto simp: trim_idt_def split: if_splits)
next
  case (Nested rs)
  with assms obtain m where m: "keep_mask rs v [] = Inr m"
    and idt: "idt = remdups_adj (sort (where_true m))"
    by (auto simp: trim_idt_def split: sum.splits)
  have idt': "idt = where_true m"
    unfolding idt by (rule unique_sort_id) (rule where_true_sorted)
  from keep_mask_length [OF m] have "m = [] \<or> length m = length v" by simp
  then have "\<forall>i \<in> set idt. i < length v"
    unfolding idt' using where_true_bound by (auto simp: where_true_def)
  then show ?thesis unfolding idt' using where_true_sorted by blast
qed

lemma fold_update_length: "length (fold (\<lambda>p t. t[p := b]) ps t) = length t"
  by (induction ps arbitrary: t) auto

lemma fold_update_nth:
  "i < length t \<Longrightarrow> fold (\<lambda>p t. t[p := b]) ps t ! i = (if i \<in> set ps then b else t ! i)"
  by (induction ps arbitrary: t) (auto simp: fold_update_length nth_list_update)

lemma breaks_bound: "p \<in> set (breaks idt) \<Longrightarrow> 1 \<le> p \<and> p < length idt"
  by (auto simp: breaks_def)

lemma cumsum_from_increasing:
  "\<forall>x \<in> set ds. 0 < x \<Longrightarrow>
     sorted_wrt (<) (cumsum_from s ds) \<and> (\<forall>y \<in> set (cumsum_from s ds). s < y)"
proof (induction ds arbitrary: s)
  case Nil
  then show ?case by simp
next
  case (Cons d ds)
  then have d: "0 < d" and rest: "\<forall>x \<in> set ds. 0 < x" by auto
  from Cons.IH [OF rest, of "s + d"]
  have ih: "sorted_wrt (<) (cumsum_from (s + d) ds)" "\<forall>y \<in> set (cumsum_from (s + d) ds). s + d < y"
    by auto
  from ih d show ?case by fastforce
qed

lemma length_cumsum_from: "length (cumsum_from s ds) = length ds"
  by (induction ds arbitrary: s) auto

lemma bridged_time_cum_increasing:
  assumes sorted_secs: "sorted_wrt (<) relTime"
      and idt: "sorted_wrt (<) idt" "\<forall>i \<in> set idt. i < length relTime" "idt \<noteq> []"
      and bridge: "0 < bridge"
  shows "bridged_time_cum bridge relTime idt ! 0 = 0
       \<and> sorted_wrt (<) (bridged_time_cum bridge relTime idt)
       \<and> length (bridged_time_cum bridge relTime idt) = length idt"
proof -
  let ?t0 = "time_inv0 relTime idt"
  let ?L = "fold (\<lambda>p time_inv. time_inv[p := bridge]) (breaks idt) ?t0"
  have len0: "length ?t0 = length idt"
    using idt(3) by (cases idt) (auto simp: time_inv0_def)
  have lenL: "length ?L = length idt"
    by (simp add: fold_update_length len0)
  have L0: "?L ! 0 = 0"
  proof -
    have "0 \<notin> set (breaks idt)" using breaks_bound by fastforce
    moreover have "0 < length ?t0" using len0 idt(3) by simp
    ultimately have "?L ! 0 = ?t0 ! 0" by (simp add: fold_update_nth)
    then show ?thesis by (simp add: time_inv0_def)
  qed
  have pos: "0 < ?L ! i" if i: "1 \<le> i" "i < length idt" for i
  proof (cases "i \<in> set (breaks idt)")
    case True
    then show ?thesis using i bridge len0 by (simp add: fold_update_nth)
  next
    case False
    from i obtain j where j: "i = Suc j" by (cases i) auto
    have "?L ! i = ?t0 ! i" using False i len0 by (simp add: fold_update_nth)
    also have "\<dots> = relTime ! (idt ! Suc j) - relTime ! (idt ! j)"
      using i j by (simp add: time_inv0_def)
    finally have eq: "?L ! i = relTime ! (idt ! Suc j) - relTime ! (idt ! j)" .
    have "idt ! j < idt ! Suc j"
      using idt(1) i j by (simp add: sorted_wrt_iff_nth_less)
    moreover have "idt ! Suc j < length relTime"
      using idt(2) i j by simp
    ultimately have "relTime ! (idt ! j) < relTime ! (idt ! Suc j)"
      using sorted_secs by (simp add: sorted_wrt_iff_nth_less)
    with eq show ?thesis by simp
  qed
  from lenL idt(3) obtain ds where ds: "?L = (?L ! 0) # ds"
    by (cases ?L) auto
  have "\<forall>x \<in> set ds. 0 < x"
  proof
    fix x assume "x \<in> set ds"
    then obtain k where k: "k < length ds" "x = ds ! k"
      by (auto simp: in_set_conv_nth)
    have "length ds = length idt - 1" using ds lenL
      by (metis length_Cons diff_Suc_1)
    with k have "Suc k < length idt" by simp
    from pos [of "Suc k"] this have "0 < ?L ! Suc k" by simp
    moreover have "?L ! Suc k = ds ! k" by (subst ds) simp
    ultimately show "0 < x" using k by simp
  qed
  from cumsum_from_increasing [OF this, of 0]
  have inc: "sorted_wrt (<) (cumsum_from 0 ds)" "\<forall>y \<in> set (cumsum_from 0 ds). 0 < y"
    by auto
  have cum: "bridged_time_cum bridge relTime idt = 0 # cumsum_from 0 ds"
    unfolding bridged_time_cum_def np_cumsum_def by (subst ds) (simp add: L0)
  show ?thesis
    unfolding cum using inc lenL ds
    by (simp add: length_cumsum_from) (metis length_Cons)
qed

text \<open>
  Claim C8. In a trimmed alignment that keeps at least one sample of a reference
  signal with strictly ascending timestamps, with a positive bridge duration, the
  cumulated time axis has one entry per kept sample, starts at zero and is strictly
  increasing.
\<close>

theorem bridged_axis_strictly_increasing:
  assumes "sorted_wrt (<) (secs ref)"
      and "0 < disTimeAddBack_sec setup"
      and "Trim setup"
      and "trim_stage setup ref = Continue loc"
  shows "l_idt loc \<noteq> []
       \<and> length (l_time_cum loc) = length (l_idt loc)
       \<and> l_time_cum loc ! 0 = 0
       \<and> sorted_wrt (<) (l_time_cum loc)"
proof -
  let ?rel = "map (\<lambda>t. t - secs ref ! 0) (secs ref)"
  from assms(3,4) obtain idt where t: "trim_idt (val_range setup) (vals ref) = Inr idt"
    and ne: "idt \<noteq> []"
    and loc: "loc = Locals ?rel (bridged_time_cum (disTimeAddBack_sec setup) ?rel idt) idt (Some (breaks idt))"
    by (auto simp: trim_stage_def Let_def split: sum.splits if_splits)
  from trim_idt_sorted [OF t]
  have s: "sorted_wrt (<) idt" and b: "\<forall>i \<in> set idt. i < length ?rel"
    by (auto simp: secs_def vals_def)
  have rel: "sorted_wrt (<) ?rel"
    using assms(1) by (simp add: sorted_wrt_map)
  from bridged_time_cum_increasing [OF rel s b ne assms(2)] ne
  show ?thesis unfolding loc by simp
qed


text \<open>The reference signal that leaves its range at the two middle samples: one
  break, bridged by one second.\<close>

theorem bridged_axis_strictly_increasing_witness:
  "sorted_wrt (<) (secs [(0, 5), (1, 0), (2, 0), (3, 5)])
   \<and> 0 < disTimeAddBack_sec (alignSetup gap_self)
   \<and> Trim (alignSetup gap_self)
   \<and> trim_stage (alignSetup gap_self) [(0, 5), (1, 0), (2, 0), (3, 5)]
       = Continue (Locals [0, 1, 2, 3] [0, 1] [0, 3] (Some [1]))
   \<and> [0, 1 :: real] ! 0 = 0
   \<and> sorted_wrt (<) [0, 1 :: real]"
proof -
  have h1: "sorted_wrt (<) (secs [(0, 5), (1, 0), (2, 0), (3, 5)])"
    by (simp add: secs_def)
  have h2: "0 < disTimeAddBack_sec (alignSetup gap_self)"
    by (simp add: gap_self_def)
  have h3: "Trim (alignSetup gap_self)"
    by (simp add: gap_self_def)
  have h4: "trim_stage (alignSetup gap_self) [(0, 5), (1, 0), (2, 0), (3, 5)]
       = Continue (Locals [0, 1, 2, 3] [0, 1] [0, 3] (Some [1]))"
    by (simp add: align_defs gap_self_def)
  from bridged_axis_strictly_increasing [OF h1 h2 h3 h4] h1 h2 h3 h4
  show ?thesis by simp
qed

subsection \<open>The resample grid\<close>






subsection \<open>The aligned row of a signal other than the reference\<close>

lemma scan_position:
  fixes xp :: "real list"
  assumes "xp \<noteq> []" and "xp ! 0 \<le> x"
  defines "j \<equiv> length (takeWhile (\<lambda>a. a \<le> x) (tl xp))"
  shows "j < length xp" and "xp ! j \<le> x" and "Suc j < length xp \<longrightarrow> x < xp ! Suc j"
proof -
  let ?P = "\<lambda>a. a \<le> x"
  have le: "j \<le> length (tl xp)"
    unfolding j_def by (rule length_takeWhile_le)
  with assms(1) show "j < length xp" by (cases xp) auto
  show "xp ! j \<le> x"
  proof (cases j)
    case 0
    with assms(2) show ?thesis by simp
  next
    case (Suc k)
    then have k: "k < length (takeWhile ?P (tl xp))" by (simp add: j_def)
    then have "takeWhile ?P (tl xp) ! k \<in> set (takeWhile ?P (tl xp))" by (rule nth_mem)
    then have "?P (takeWhile ?P (tl xp) ! k)" by (rule set_takeWhileD [THEN conjunct2])
    moreover have "takeWhile ?P (tl xp) ! k = tl xp ! k" using k by (rule takeWhile_nth)
    moreover have "tl xp ! k = xp ! Suc k"
      using assms(1) by (cases xp) auto
    ultimately show ?thesis using Suc by simp
  qed
  show "Suc j < length xp \<longrightarrow> x < xp ! Suc j"
  proof
    assume "Suc j < length xp"
    then have "length (takeWhile ?P (tl xp)) < length (tl xp)" by (simp add: j_def)
    then have "\<not> ?P (tl xp ! length (takeWhile ?P (tl xp)))" by (rule nth_length_takeWhile)
    moreover have "tl xp ! j = xp ! Suc j"
      using assms(1) by (cases xp) auto
    ultimately show "x < xp ! Suc j" by (simp add: j_def)
  qed
qed

lemma interp_at_outside:
  "x < xp ! 0 \<or> last xp < x \<Longrightarrow> interp_at xp fp x = None"
  by (auto simp: interp_at_def)

lemma interp_at_inside:
  assumes "2 \<le> length xp" and "length ys = length xp" and "xp ! 0 \<le> x" and "x \<le> last xp"
  shows "\<exists>j. j < length xp \<and> xp ! j \<le> x
            \<and> ((j = length xp - 1 \<or> xp ! j = x) \<and> interp_at xp (map Some ys) x = Some (ys ! j)
               \<or> Suc j < length xp \<and> xp ! j < x \<and> x < xp ! Suc j
                 \<and> interp_at xp (map Some ys) x
                     = Some ((ys ! Suc j - ys ! j) / (xp ! Suc j - xp ! j) * (x - xp ! j) + ys ! j))"
proof -
  define j where "j = length (takeWhile (\<lambda>a. a \<le> x) (tl xp))"
  have ne: "xp \<noteq> []" using assms(1) by auto
  note sp = scan_position [OF ne assms(3), folded j_def]
  have guards: "\<not> x < xp ! 0" "\<not> last xp < x" "length xp \<noteq> 1"
    using assms by auto
  show ?thesis
  proof (cases "j = length xp - 1 \<or> xp ! j = x")
    case True
    then have "interp_at xp (map Some ys) x = Some (ys ! j)"
      using guards sp(1) assms(2) by (auto simp: interp_at_def Let_def j_def [symmetric])
    with True sp show ?thesis by blast
  next
    case False
    with sp have S: "Suc j < length xp" "xp ! j < x" "x < xp ! Suc j" by auto
    then have "interp_at xp (map Some ys) x
                 = Some ((ys ! Suc j - ys ! j) / (xp ! Suc j - xp ! j) * (x - xp ! j) + ys ! j)"
      using guards False assms(2) by (simp add: interp_at_def Let_def j_def [symmetric])
    with S sp show ?thesis by blast
  qed
qed

lemma own_axis_interp:
  assumes "2 \<le> length f"
  shows "(x < 0 \<or> last (secs f) - secs f ! 0 < x \<longrightarrow>
            interp_at (map (\<lambda>t. t - secs f ! 0) (secs f)) (map Some (vals f)) x = None)
       \<and> (0 \<le> x \<and> x \<le> last (secs f) - secs f ! 0 \<longrightarrow>
            (\<exists>j < length f.
               secs f ! j - secs f ! 0 \<le> x
               \<and> ((j = length f - 1 \<or> secs f ! j - secs f ! 0 = x)
                    \<and> interp_at (map (\<lambda>t. t - secs f ! 0) (secs f)) (map Some (vals f)) x
                        = Some (vals f ! j)
                  \<or> Suc j < length f
                    \<and> secs f ! j - secs f ! 0 < x
                    \<and> x < secs f ! Suc j - secs f ! 0
                    \<and> interp_at (map (\<lambda>t. t - secs f ! 0) (secs f)) (map Some (vals f)) x
                        = Some ((vals f ! Suc j - vals f ! j)
                                 / ((secs f ! Suc j - secs f ! 0) - (secs f ! j - secs f ! 0))
                                 * (x - (secs f ! j - secs f ! 0)) + vals f ! j))))"
proof -
  let ?xp = "map (\<lambda>t. t - secs f ! 0) (secs f)"
  have len: "length (secs f) = length f" "length (vals f) = length f" "length ?xp = length f"
    by (simp_all add: secs_def vals_def)
  have ne: "secs f \<noteq> []" using assms len by auto
  have pos: "0 < length (secs f)" using assms len by linarith
  have xp0: "?xp ! 0 = 0" by (subst nth_map [OF pos]) simp
  have xpl: "last ?xp = last (secs f) - secs f ! 0"
    using ne by (simp add: last_map)
  have xpn: "?xp ! j = secs f ! j - secs f ! 0" if "j < length f" for j
  proof -
    from that have "j < length (secs f)" using len by simp
    then show ?thesis by (rule nth_map)
  qed
  have out: "x < 0 \<or> last (secs f) - secs f ! 0 < x \<longrightarrow>
              interp_at ?xp (map Some (vals f)) x = None"
    using interp_at_outside [of x ?xp] xp0 xpl by metis
  have ins: "\<exists>j < length f.
                 secs f ! j - secs f ! 0 \<le> x
                 \<and> ((j = length f - 1 \<or> secs f ! j - secs f ! 0 = x)
                      \<and> interp_at ?xp (map Some (vals f)) x = Some (vals f ! j)
                    \<or> Suc j < length f
                      \<and> secs f ! j - secs f ! 0 < x
                      \<and> x < secs f ! Suc j - secs f ! 0
                      \<and> interp_at ?xp (map Some (vals f)) x
                          = Some ((vals f ! Suc j - vals f ! j)
                                   / ((secs f ! Suc j - secs f ! 0) - (secs f ! j - secs f ! 0))
                                   * (x - (secs f ! j - secs f ! 0)) + vals f ! j))"
    if x: "0 \<le> x" "x \<le> last (secs f) - secs f ! 0"
  proof -
    have a: "2 \<le> length ?xp" using assms len by simp
    have b: "length (vals f) = length ?xp" using len by simp
    have c: "?xp ! 0 \<le> x" "x \<le> last ?xp" using x xp0 xpl by simp_all
    from interp_at_inside [OF a b c] obtain j where j: "j < length ?xp" "?xp ! j \<le> x"
      "(j = length ?xp - 1 \<or> ?xp ! j = x) \<and> interp_at ?xp (map Some (vals f)) x = Some (vals f ! j)
        \<or> Suc j < length ?xp \<and> ?xp ! j < x \<and> x < ?xp ! Suc j
          \<and> interp_at ?xp (map Some (vals f)) x
               = Some ((vals f ! Suc j - vals f ! j) / (?xp ! Suc j - ?xp ! j) * (x - ?xp ! j)
                        + vals f ! j)"
      by blast
    from j(1) have jl: "j < length f" using len by simp
    show ?thesis
    proof (cases "Suc j < length f")
      case True
      from j show ?thesis
        unfolding len(3) xpn [OF jl] xpn [OF True] using jl by blast
    next
      case False
      with j have "(j = length f - 1 \<or> ?xp ! j = x)
                     \<and> interp_at ?xp (map Some (vals f)) x = Some (vals f ! j)"
        using len by auto
      with j(2) show ?thesis
        unfolding xpn [OF jl] using jl by blast
    qed
  qed
  from out ins show ?thesis by blast
qed

lemma align_row_other:
  assumes "lookup_raw rd (Some pv) = Inr (Some f)"
      and "Some pv \<noteq> base"
      and "2 \<le> length f"
  shows "align_row rd base relTime idt pv
           = Inr (map (\<lambda>k. interp_at (map (\<lambda>t. t - secs f ! 0) (secs f)) (map Some (vals f))
                              (relTime ! k)) idt)"
proof -
  have len: "length (secs f) = length f" "length (vals f) = length f"
    by (simp_all add: secs_def vals_def)
  have ne: "secs f \<noteq> []" "length (secs f) \<noteq> 1" using assms(3) len by auto
  show ?thesis
    using assms(1,2) ne len by (simp add: align_row_def np_interp_def comp_def)
qed

lemma fill_rows_length:
  "fill_rows rd base relTime idt ps m = (r, m') \<Longrightarrow> length m' = length m"
proof (induction ps arbitrary: m)
  case Nil
  then show ?case by simp
next
  case (Cons p ps)
  obtain j pv where p: "p = (j, pv)" by (cases p)
  show ?case
  proof (cases "align_row rd base relTime idt pv")
    case (Inl e)
    with Cons.prems p show ?thesis by simp
  next
    case (Inr row)
    with Cons.prems p have "fill_rows rd base relTime idt ps (m[j := row]) = (r, m')"
      by simp
    from Cons.IH [OF this] show ?thesis by simp
  qed
qed

lemma fill_rows_untouched:
  "fill_rows rd base relTime idt ps m = (r, m') \<Longrightarrow> i \<notin> fst ` set ps \<Longrightarrow> m' ! i = m ! i"
proof (induction ps arbitrary: m)
  case Nil
  then show ?case by simp
next
  case (Cons p ps)
  obtain j pv where p: "p = (j, pv)" by (cases p)
  from Cons.prems(2) p have ij: "i \<noteq> j" and rest: "i \<notin> fst ` set ps" by auto
  show ?case
  proof (cases "align_row rd base relTime idt pv")
    case (Inl e)
    with Cons.prems p show ?thesis by simp
  next
    case (Inr row)
    with Cons.prems p have "fill_rows rd base relTime idt ps (m[j := row]) = (r, m')"
      by simp
    from Cons.IH [OF this rest] ij show ?thesis by simp
  qed
qed

lemma fill_rows_written:
  "fill_rows rd base relTime idt ps m = (None, m') \<Longrightarrow> distinct (map fst ps)
     \<Longrightarrow> (i, pv) \<in> set ps \<Longrightarrow> i < length m
     \<Longrightarrow> align_row rd base relTime idt pv = Inr (m' ! i)"
proof (induction ps arbitrary: m)
  case Nil
  then show ?case by simp
next
  case (Cons p ps)
  obtain j q where p: "p = (j, q)" by (cases p)
  from Cons.prems(1) p obtain row where row: "align_row rd base relTime idt q = Inr row"
    and rest: "fill_rows rd base relTime idt ps (m[j := row]) = (None, m')"
    by (cases "align_row rd base relTime idt q") auto
  from Cons.prems(2) p have d: "distinct (map fst ps)" and j: "j \<notin> fst ` set ps"
    by auto
  show ?case
  proof (cases "(i, pv) = (j, q)")
    case True
    from fill_rows_untouched [OF rest j] have "m' ! j = (m[j := row]) ! j" .
    with True Cons.prems(4) row show ?thesis by simp
  next
    case False
    with Cons.prems(3) p have "(i, pv) \<in> set ps" by auto
    moreover from Cons.prems(4) have "i < length (m[j := row])" by simp
    ultimately show ?thesis using Cons.IH [OF rest d] by blast
  qed
qed

lemma align_axis_Continue:
  assumes "align_axis self0 = (Continue (ref, loc), self1)"
  shows "lookup_raw (rawData self0) (base_pv (alignSetup self0)) = Inr (Some ref)"
    and "ref \<noteq> []"
    and "trim_stage (alignSetup self0) ref = Continue loc"
    and "l_diff_idt loc \<noteq> None"
    and "rawData self1 = rawData self0"
    and "alignSetup self1 = alignSetup self0"
    and "pvNames self1 = pvNames self0"
    and "length (syn_vals (synData self1)) = length (pvNames self0)"
  using assms
  by (auto simp: align_axis_def Let_def
           split: sum.splits option.splits flow.splits if_splits)

lemma trim_stage_Continue:
  assumes "trim_stage setup ref = Continue loc" and "l_diff_idt loc \<noteq> None"
  shows "l_relTime loc = map (\<lambda>t. t - secs ref ! 0) (secs ref)"
    and "trim_idt (val_range setup) (vals ref) = Inr (l_idt loc)"
  using assms
  by (auto simp: trim_stage_def Let_def split: sum.splits if_splits)

lemma strictly_sorted_bounded_length:
  assumes "sorted_wrt (<) (idt :: nat list)" and "\<forall>i \<in> set idt. i < n"
  shows "length idt \<le> n"
proof -
  from assms(1) have "distinct idt" by (simp add: strict_sorted_iff)
  then have "length idt = card (set idt)" by (simp add: distinct_card)
  also from assms(2) have "set idt \<subseteq> {..<n}" by auto
  then have "card (set idt) \<le> card {..<n}" by (intro card_mono) simp_all
  finally show ?thesis by simp
qed

text \<open>
  Claim C6, as the code has it. In an alignment that has kept the indices \<open>idt\<close> of the
  reference signal and written all rows, the row of a configured signal other than the
  reference, with at least two raw samples in ascending order, is \<^verbatim>\<open>np.interp\<close> of its
  values against its own relative time axis (origin at its first timestamp), queried
  at the relative times of the kept reference samples, the reference timestamp at each
  kept index minus the first reference timestamp: the true elapsed times, not the
  bridged cumulated ones. A query before the first or after the last sample of the
  signal gives the not-a-number marker; any other query gives the value of a sample
  met exactly, or of the last sample, or else the point on the straight line between
  the two neighbouring samples.
\<close>

theorem aligned_row_interpolates_at_relTime:
  assumes "align_axis self0 = (Continue (ref, loc), self1)"
      and "align_rows (ref, loc) self1 = (None, self2)"
      and "i < length (pvNames self0)"
      and "Some (pvNames self0 ! i) \<noteq> base_pv (alignSetup self0)"
      and "lookup_raw (rawData self0) (Some (pvNames self0 ! i)) = Inr (Some f)"
      and "2 \<le> length f"
      and "sorted (secs f)"
  shows "lookup_raw (rawData self0) (base_pv (alignSetup self0)) = Inr (Some ref)
       \<and> syn_vals (synData self2) ! i
           = map (\<lambda>k. interp_at (map (\<lambda>t. t - secs f ! 0) (secs f)) (map Some (vals f))
                         (secs ref ! k - secs ref ! 0)) (l_idt loc)
       \<and> (\<forall>k \<in> set (l_idt loc).
            secs ref ! k - secs ref ! 0 < 0
              \<or> last (secs f) - secs f ! 0 < secs ref ! k - secs ref ! 0 \<longrightarrow>
            interp_at (map (\<lambda>t. t - secs f ! 0) (secs f)) (map Some (vals f))
              (secs ref ! k - secs ref ! 0) = None)
       \<and> (\<forall>k \<in> set (l_idt loc).
            0 \<le> secs ref ! k - secs ref ! 0
              \<and> secs ref ! k - secs ref ! 0 \<le> last (secs f) - secs f ! 0 \<longrightarrow>
            (\<exists>j < length f.
               secs f ! j - secs f ! 0 \<le> secs ref ! k - secs ref ! 0
               \<and> ((j = length f - 1 \<or> secs f ! j - secs f ! 0 = secs ref ! k - secs ref ! 0)
                    \<and> interp_at (map (\<lambda>t. t - secs f ! 0) (secs f)) (map Some (vals f))
                         (secs ref ! k - secs ref ! 0) = Some (vals f ! j)
                  \<or> Suc j < length f
                    \<and> secs f ! j - secs f ! 0 < secs ref ! k - secs ref ! 0
                    \<and> secs ref ! k - secs ref ! 0 < secs f ! Suc j - secs f ! 0
                    \<and> interp_at (map (\<lambda>t. t - secs f ! 0) (secs f)) (map Some (vals f))
                         (secs ref ! k - secs ref ! 0)
                        = Some ((vals f ! Suc j - vals f ! j)
                                 / ((secs f ! Suc j - secs f ! 0) - (secs f ! j - secs f ! 0))
                                 * (secs ref ! k - secs ref ! 0 - (secs f ! j - secs f ! 0))
                                 + vals f ! j))))"
proof -
  let ?xp = "map (\<lambda>t. t - secs f ! 0) (secs f)"
  let ?fp = "map Some (vals f)"
  let ?pv = "pvNames self0 ! i"
  let ?rel = "l_relTime loc" and ?idt = "l_idt loc"
  note ax = align_axis_Continue [OF assms(1)]
  note ts = trim_stage_Continue [OF ax(3,4)]
  from trim_idt_sorted [OF ts(2)]
  have idt: "sorted_wrt (<) ?idt" "\<forall>k \<in> set ?idt. k < length (secs ref)"
    by (simp_all add: secs_def vals_def)
  have rel_len: "length ?rel = length (secs ref)"
    unfolding ts(1) by simp
  have rel: "?rel ! k = secs ref ! k - secs ref ! 0" if "k \<in> set ?idt" for k
  proof -
    from that idt(2) have "k < length (secs ref)" by blast
    then show ?thesis unfolding ts(1) by (rule nth_map)
  qed
  from assms(2) obtain m where
    fr: "fill_rows (rawData self1) (base_pv (alignSetup self1)) ?rel ?idt
           (zip [0..<length (pvNames self1)] (pvNames self1)) (syn_vals (synData self1))
           = (None, m)"
    and m: "syn_vals (synData self2) = map (take (length ?rel)) m"
    by (auto simp: align_rows_def Let_def split: prod.splits option.splits)
  let ?ps = "zip [0..<length (pvNames self0)] (pvNames self0)"
  have d: "distinct (map fst ?ps)" by simp
  have mem: "(i, ?pv) \<in> set ?ps"
  proof -
    have "?ps ! i = (i, ?pv)" using assms(3) by simp
    moreover have "i < length ?ps" using assms(3) by simp
    ultimately show ?thesis by (metis nth_mem)
  qed
  have il: "i < length (syn_vals (synData self1))"
    using assms(3) ax(8) by simp
  from fill_rows_written [OF fr [unfolded ax(5,6,7)] d mem il]
  have row: "align_row (rawData self0) (base_pv (alignSetup self0)) ?rel ?idt ?pv = Inr (m ! i)" .
  from align_row_other [OF assms(5,4,6), of ?rel ?idt] row
  have mi: "m ! i = map (\<lambda>k. interp_at ?xp ?fp (?rel ! k)) ?idt"
    by simp
  also have "\<dots> = map (\<lambda>k. interp_at ?xp ?fp (secs ref ! k - secs ref ! 0)) ?idt"
    using rel by (intro map_cong) simp_all
  finally have mi': "m ! i = map (\<lambda>k. interp_at ?xp ?fp (secs ref ! k - secs ref ! 0)) ?idt" .
  have ml: "length m = length (pvNames self0)"
    using fill_rows_length [OF fr] ax(8) by simp
  have short: "length ?idt \<le> length ?rel"
    unfolding rel_len by (rule strictly_sorted_bounded_length [OF idt])
  have "syn_vals (synData self2) ! i = take (length ?rel) (m ! i)"
    unfolding m using assms(3) ml by simp
  also have "\<dots> = m ! i"
    unfolding mi' using short by simp
  finally have r: "syn_vals (synData self2) ! i
      = map (\<lambda>k. interp_at ?xp ?fp (secs ref ! k - secs ref ! 0)) ?idt"
    using mi' by simp
  from ax(1) r own_axis_interp [OF assms(6)] show ?thesis by blast
qed

text \<open>The second signal of the object whose reference comes back in range half a
  second after a gap: its row is read at the reference times \<open>0\<close>, \<open>2.5\<close> and \<open>4\<close>, which
  gives a sample met exactly, a point between two samples and, one second after its
  last sample, the not-a-number marker.\<close>

theorem aligned_row_interpolates_at_relTime_witness:
  "align_axis frac_self
     = (Continue ([(0, 5), (1, 0), (2, 0), (5 / 2, 5), (4, 5)],
                  Locals [0, 1, 2, 5 / 2, 4] [0, 1, 5 / 2] [0, 3, 4] (Some [1])),
        frac_self\<lparr>synData :=
          SynDict (Some 1) [0, 1, 5 / 2]
            [[Some 0, Some 0, Some 0], [Some 0, Some 0, Some 0]] None\<rparr>)
   \<and> align_rows ([(0, 5), (1, 0), (2, 0), (5 / 2, 5), (4, 5)],
                  Locals [0, 1, 2, 5 / 2, 4] [0, 1, 5 / 2] [0, 3, 4] (Some [1]))
        (frac_self\<lparr>synData :=
          SynDict (Some 1) [0, 1, 5 / 2]
            [[Some 0, Some 0, Some 0], [Some 0, Some 0, Some 0]] None\<rparr>)
     = (None,
        frac_self\<lparr>synData :=
          SynDict (Some 1) [0, 1, 5 / 2]
            [[Some 5, Some 5, Some 5], [Some 0, Some 25, None]] None\<rparr>)
   \<and> 1 < length (pvNames frac_self)
   \<and> Some (pvNames frac_self ! 1) \<noteq> base_pv (alignSetup frac_self)
   \<and> lookup_raw (rawData frac_self) (Some (pvNames frac_self ! 1))
       = Inr (Some [(0, 0), (1, 10), (2, 20), (3, 30)])
   \<and> 2 \<le> length ([(0, 0), (1, 10), (2, 20), (3, 30)] :: frame)
   \<and> sorted (secs [(0, 0), (1, 10), (2, 20), (3, 30)])
   \<and> [Some 0, Some 25, None]
       = map (\<lambda>k. interp_at
                    (map (\<lambda>t. t - secs [(0, 0), (1, 10), (2, 20), (3, 30)] ! 0)
                       (secs [(0, 0), (1, 10), (2, 20), (3, 30)]))
                    (map Some (vals [(0, 0), (1, 10), (2, 20), (3, 30)]))
                    (secs [(0, 5), (1, 0), (2, 0), (5 / 2, 5), (4, 5)] ! k
                       - secs [(0, 5), (1, 0), (2, 0), (5 / 2, 5), (4, 5)] ! 0))
           [0, 3, 4]
   \<and> interp_at
         (map (\<lambda>t. t - secs [(0, 0), (1, 10), (2, 20), (3, 30)] ! 0)
            (secs [(0, 0), (1, 10), (2, 20), (3, 30)]))
         (map Some (vals [(0, 0), (1, 10), (2, 20), (3, 30)]))
         (secs [(0, 5), (1, 0), (2, 0), (5 / 2, 5), (4, 5)] ! 4
            - secs [(0, 5), (1, 0), (2, 0), (5 / 2, 5), (4, 5)] ! 0) = None"
proof -
  let ?ref = "[(0, 5), (1, 0), (2, 0), (5 / 2, 5), (4, 5)] :: frame"
  let ?f = "[(0, 0), (1, 10), (2, 20), (3, 30)] :: frame"
  let ?loc = "Locals [0, 1, 2, 5 / 2, 4] [0, 1, 5 / 2] [0, 3, 4] (Some [1])"
  let ?s1 = "frac_self\<lparr>synData :=
          SynDict (Some 1) [0, 1, 5 / 2]
            [[Some 0, Some 0, Some 0], [Some 0, Some 0, Some 0]] None\<rparr>"
  let ?s2 = "frac_self\<lparr>synData :=
          SynDict (Some 1) [0, 1, 5 / 2]
            [[Some 5, Some 5, Some 5], [Some 0, Some 25, None]] None\<rparr>"
  have h1: "align_axis frac_self = (Continue (?ref, ?loc), ?s1)"
    by (simp add: align_defs frac_self_def gap_self_def)
  have h2: "align_rows (?ref, ?loc) ?s1 = (None, ?s2)"
    by (simp add: align_defs frac_self_def gap_self_def)
  have h3: "1 < length (pvNames frac_self)"
    by (simp add: frac_self_def gap_self_def)
  have h4: "Some (pvNames frac_self ! 1) \<noteq> base_pv (alignSetup frac_self)"
    by (simp add: frac_self_def gap_self_def)
  have h5: "lookup_raw (rawData frac_self) (Some (pvNames frac_self ! 1)) = Inr (Some ?f)"
    by (simp add: lookup_raw_def frac_self_def gap_self_def)
  have h6: "2 \<le> length ?f" by simp
  have h7: "sorted (secs ?f)" by (simp add: secs_def)
  note t = aligned_row_interpolates_at_relTime [OF h1 h2 h3 h4 h5 h6 h7]
  have row: "syn_vals (synData ?s2) ! 1 = [Some 0, Some 25, None]"
    by simp
  have idt: "l_idt ?loc = [0, 3, 4]" by simp
  from t have "syn_vals (synData ?s2) ! 1
      = map (\<lambda>k. interp_at (map (\<lambda>t. t - secs ?f ! 0) (secs ?f)) (map Some (vals ?f))
                    (secs ?ref ! k - secs ?ref ! 0)) (l_idt ?loc)"
    by blast
  then have c1: "[Some 0, Some 25, None]
      = map (\<lambda>k. interp_at (map (\<lambda>t. t - secs ?f ! 0) (secs ?f)) (map Some (vals ?f))
                    (secs ?ref ! k - secs ?ref ! 0)) [0, 3, 4]"
    unfolding row idt .
  from t have "\<forall>k \<in> set (l_idt ?loc).
            secs ?ref ! k - secs ?ref ! 0 < 0
              \<or> last (secs ?f) - secs ?f ! 0 < secs ?ref ! k - secs ?ref ! 0 \<longrightarrow>
            interp_at (map (\<lambda>t. t - secs ?f ! 0) (secs ?f)) (map Some (vals ?f))
              (secs ?ref ! k - secs ?ref ! 0) = None"
    by blast
  moreover have "4 \<in> set (l_idt ?loc)" by simp
  moreover have "last (secs ?f) - secs ?f ! 0 < secs ?ref ! 4 - secs ?ref ! 0"
    by (simp add: secs_def)
  ultimately have c2: "interp_at (map (\<lambda>t. t - secs ?f ! 0) (secs ?f)) (map Some (vals ?f))
              (secs ?ref ! 4 - secs ?ref ! 0) = None"
    by blast
  from h1 h2 h3 h4 h5 h6 h7 c1 c2 show ?thesis by blast
qed

text \<open>Claim C6 as stated fails: on that object the gap is bridged by one second and
  the cumulated axis is \<open>[0, 1, 2.5]\<close>, where interpolation of the second signal would
  give \<open>0\<close>, \<open>10\<close> and \<open>25\<close>; the alignment writes the row \<open>0\<close>, \<open>25\<close> and not-a-number, the
  values at the true times \<open>0\<close>, \<open>2.5\<close> and \<open>4\<close>.\<close>

theorem aligned_row_not_at_cumulative_time:
  "align_axis frac_self
     = (Continue ([(0, 5), (1, 0), (2, 0), (5 / 2, 5), (4, 5)],
                  Locals [0, 1, 2, 5 / 2, 4] [0, 1, 5 / 2] [0, 3, 4] (Some [1])),
        frac_self\<lparr>synData :=
          SynDict (Some 1) [0, 1, 5 / 2]
            [[Some 0, Some 0, Some 0], [Some 0, Some 0, Some 0]] None\<rparr>)
   \<and> align_rows ([(0, 5), (1, 0), (2, 0), (5 / 2, 5), (4, 5)],
                  Locals [0, 1, 2, 5 / 2, 4] [0, 1, 5 / 2] [0, 3, 4] (Some [1]))
        (frac_self\<lparr>synData :=
          SynDict (Some 1) [0, 1, 5 / 2]
            [[Some 0, Some 0, Some 0], [Some 0, Some 0, Some 0]] None\<rparr>)
     = (None,
        frac_self\<lparr>synData :=
          SynDict (Some 1) [0, 1, 5 / 2]
            [[Some 5, Some 5, Some 5], [Some 0, Some 25, None]] None\<rparr>)
   \<and> np_interp [0, 1, 5 / 2] [0, 1, 2, 3] [Some 0, Some 10, Some 20, Some 30]
       = Inr [Some 0, Some 10, Some 25]"
  by (simp add: align_defs frac_self_def gap_self_def)

subsection \<open>Setting the service endpoint through \<^verbatim>\<open>set_property\<close>\<close>

text \<open>
  Claim C9. \<^verbatim>\<open>set_property('webServer', value)\<close> does not fail on an unknown value: for
  every value, every object and every behaviour of the \<^verbatim>\<open>datetime\<close> library, the call
  returns and leaves the object, its endpoint included, as it was. The attribute
  passes the test of line 142 and no branch of the method handles it, while the
  branches for \<^verbatim>\<open>duration_hour\<close> and \<^verbatim>\<open>alignSetup\<close> refuse a value that breaks their
  constraints.
\<close>

theorem set_property_webServer_ignored:
  "set_property lib ''webServer'' (PStr ''bogus'') self = (Returned, self)
   \<and> set_property lib ''webServer'' v self = (Returned, self)
   \<and> set_property lib ''duration_hour'' (PStr text) self = (Raised ValueError, self)
   \<and> set_property lib ''alignSetup'' (PStr text) self = (Raised ValueError, self)
   \<and> set_property lib ''alignSetup'' (PDict [''base_pv''] setup) self
       = (Raised ValueError, self)"
  by (simp add: set_property_def private_attributes_def required_keys_def)

subsection \<open>The reference signal and its index\<close>

lemma get_history_base_id:
  "get_history service (self\<lparr>alignSetup := (alignSetup self)\<lparr>base_id := b\<rparr>\<rparr>) pv
     = get_history service self pv"
  by (simp add: get_history_def cong: option.case_cong if_cong)

lemma collect_results_base_id:
  "collect_results service (self\<lparr>alignSetup := (alignSetup self)\<lparr>base_id := b\<rparr>\<rparr>) js
     = (case collect_results service self js of
          (out, self') \<Rightarrow> (out, self'\<lparr>alignSetup := (alignSetup self')\<lparr>base_id := b\<rparr>\<rparr>))"
proof (induction js arbitrary: self)
  case Nil
  then show ?case by simp
next
  case (Cons j js)
  let ?u = "self\<lparr>alignSetup := (alignSetup self)\<lparr>base_id := b\<rparr>\<rparr>"
  have names: "pvNames ?u = pvNames self" by simp
  show ?case
  proof (cases "get_history service self (pvNames self ! j)")
    case (Inl e)
    then show ?thesis by (simp add: get_history_base_id)
  next
    case (Inr r)
    obtain data error where r: "r = (data, error)" by (cases r)
    let ?s = "self\<lparr>rawData := RawList ((case rawData self of RawList l \<Rightarrow> l | RawDict d \<Rightarrow> []) @ [data])\<rparr>"
    let ?us = "?u\<lparr>rawData := RawList ((case rawData ?u of RawList l \<Rightarrow> l | RawDict d \<Rightarrow> []) @ [data])\<rparr>"
    have g: "get_history service ?u (pvNames ?u ! j) = Inr (data, error)"
      unfolding names get_history_base_id using Inr r by simp
    have "collect_results service ?u (j # js) = collect_results service ?us js"
      by (simp only: collect_results.simps g sum.case prod.case)
    also have "?us = ?s\<lparr>alignSetup := (alignSetup ?s)\<lparr>base_id := b\<rparr>\<rparr>"
      by simp
    also have "collect_results service (?s\<lparr>alignSetup := (alignSetup ?s)\<lparr>base_id := b\<rparr>\<rparr>) js
         = (case collect_results service ?s js of
          (out, self') \<Rightarrow> (out, self'\<lparr>alignSetup := (alignSetup self')\<lparr>base_id := b\<rparr>\<rparr>))"
      by (rule Cons.IH)
    also have "collect_results service ?s js = collect_results service self (j # js)"
      using Inr r by simp
    finally show ?thesis .
  qed
qed

lemma getHistory_base_id:
  "getHistory service completion (self\<lparr>alignSetup := (alignSetup self)\<lparr>base_id := b\<rparr>\<rparr>)
     = (case getHistory service completion self of
          (out, self') \<Rightarrow> (out, self'\<lparr>alignSetup := (alignSetup self')\<lparr>base_id := b\<rparr>\<rparr>))"
proof (cases "duration_hour self")
  case None
  then show ?thesis by (simp add: getHistory_def)
next
  case (Some d)
  let ?u = "self\<lparr>alignSetup := (alignSetup self)\<lparr>base_id := b\<rparr>\<rparr>"
  let ?s = "self\<lparr>rawData := RawList []\<rparr>"
  have du: "duration_hour ?u = Some d" using Some by simp
  have u: "?u\<lparr>rawData := RawList []\<rparr> = ?s\<lparr>alignSetup := (alignSetup ?s)\<lparr>base_id := b\<rparr>\<rparr>"
    by simp
  obtain out self' where c: "collect_results service ?s completion = (out, self')"
    by (cases "collect_results service ?s completion")
  have cu: "collect_results service (?u\<lparr>rawData := RawList []\<rparr>) completion
              = (out, self'\<lparr>alignSetup := (alignSetup self')\<lparr>base_id := b\<rparr>\<rparr>)"
    unfolding u collect_results_base_id c by simp
  have l: "getHistory service completion ?u
             = (case (out, self'\<lparr>alignSetup := (alignSetup self')\<lparr>base_id := b\<rparr>\<rparr>) of
             (Raised e, self') \<Rightarrow> (Raised e, self')
           | (Returned, self') \<Rightarrow>
               (Returned,
                self'\<lparr>rawData :=
                   RawDict (dict_of (zip (pvNames self')
                      (case rawData self' of RawList l \<Rightarrow> l | RawDict d \<Rightarrow> [])))\<rparr>))"
    by (simp only: getHistory_def du option.case cu)
  have r: "getHistory service completion self
             = (case (out, self') of
             (Raised e, self') \<Rightarrow> (Raised e, self')
           | (Returned, self') \<Rightarrow>
               (Returned,
                self'\<lparr>rawData :=
                   RawDict (dict_of (zip (pvNames self')
                      (case rawData self' of RawList l \<Rightarrow> l | RawDict d \<Rightarrow> [])))\<rparr>))"
    by (simp only: getHistory_def Some option.case c)
  show ?thesis unfolding l r by (cases out) simp_all
qed


lemma trim_stage_base_id: "trim_stage (setup\<lparr>base_id := b\<rparr>) ref = trim_stage setup ref"
  by (simp add: trim_stage_def Let_def cong: if_cong sum.case_cong)

lemma align_axis_base_id:
  "align_axis (self\<lparr>alignSetup := (alignSetup self)\<lparr>base_id := b\<rparr>\<rparr>)
     = (case align_axis self of
          (fl, self') \<Rightarrow> (fl, self'\<lparr>alignSetup := (alignSetup self')\<lparr>base_id := b\<rparr>\<rparr>))"
  by (simp add: align_axis_def Let_def trim_stage_base_id
        split: sum.splits option.splits flow.splits)

lemma align_rows_base_id:
  "align_rows fl (self\<lparr>alignSetup := (alignSetup self)\<lparr>base_id := b\<rparr>\<rparr>)
     = (case align_rows fl self of
          (err, self') \<Rightarrow> (err, self'\<lparr>alignSetup := (alignSetup self')\<lparr>base_id := b\<rparr>\<rparr>))"
  by (simp add: align_rows_def Let_def split: prod.splits option.splits)

lemma resample_base_id:
  "resample time_cum (self\<lparr>alignSetup := (alignSetup self)\<lparr>base_id := b\<rparr>\<rparr>)
     = (case resample time_cum self of
          (out, self') \<Rightarrow> (out, self'\<lparr>alignSetup := (alignSetup self')\<lparr>base_id := b\<rparr>\<rparr>))"
  by (simp add: resample_def split: sum.splits)

lemma align_rows_resample_base_id:
  "align_rows_resample fl (self\<lparr>alignSetup := (alignSetup self)\<lparr>base_id := b\<rparr>\<rparr>)
     = (case align_rows_resample fl self of
          (out, self') \<Rightarrow> (out, self'\<lparr>alignSetup := (alignSetup self')\<lparr>base_id := b\<rparr>\<rparr>))"
  by (simp add: align_rows_resample_def align_rows_base_id resample_base_id
        split: prod.splits option.splits)

lemma alignHistory_base_id:
  "alignHistory service completion getHistory_arg
       (self\<lparr>alignSetup := (alignSetup self)\<lparr>base_id := b\<rparr>\<rparr>)
     = (case alignHistory service completion getHistory_arg self of
          (out, self') \<Rightarrow> (out, self'\<lparr>alignSetup := (alignSetup self')\<lparr>base_id := b\<rparr>\<rparr>))"
proof -
  let ?u = "self\<lparr>alignSetup := (alignSetup self)\<lparr>base_id := b\<rparr>\<rparr>"
  let ?c = "getHistory_arg \<and> raw_is_empty (rawData self)"
  have raw: "rawData ?u = rawData self" by simp
  obtain out self1 where
    pre: "(if ?c then getHistory service completion self else (Returned, self)) = (out, self1)"
    by (cases "if ?c then getHistory service completion self else (Returned, self)")
  have pre_u: "(if ?c then getHistory service completion ?u else (Returned, ?u))
                 = (out, self1\<lparr>alignSetup := (alignSetup self1)\<lparr>base_id := b\<rparr>\<rparr>)"
  proof (cases ?c)
    case True
    with pre have "getHistory service completion self = (out, self1)" by simp
    with True show ?thesis by (simp add: getHistory_base_id)
  next
    case False
    with pre have "out = Returned" "self1 = self" by simp_all
    with False show ?thesis by auto
  qed
  show ?thesis
  proof (cases out)
    case (Raised e)
    show ?thesis
      unfolding alignHistory_def raw pre pre_u Raised by simp
  next
    case Returned
    obtain fl self2 where a: "align_axis self1 = (fl, self2)"
      by (cases "align_axis self1")
    have au: "align_axis (self1\<lparr>alignSetup := (alignSetup self1)\<lparr>base_id := b\<rparr>\<rparr>)
                = (fl, self2\<lparr>alignSetup := (alignSetup self2)\<lparr>base_id := b\<rparr>\<rparr>)"
      unfolding align_axis_base_id a by simp
    show ?thesis
      unfolding alignHistory_def raw pre pre_u Returned
      by (cases fl) (simp_all add: a au align_rows_resample_base_id)
  qed
qed

text \<open>
  Claim C10, as the code has it. A call of \<^verbatim>\<open>set_base_pv\<close> with a non-empty \<^verbatim>\<open>base_pv\<close>
  that is among the configured signal names returns and stores the arguments as given,
  \<^verbatim>\<open>base_id\<close> included: the index of \<^verbatim>\<open>base_pv\<close> is never computed. Alignment does not read
  \<^verbatim>\<open>base_id\<close>: with any other \<^verbatim>\<open>base_id\<close> in the setup it has the same outcome and leaves
  the same object, up to that \<^verbatim>\<open>base_id\<close>.
\<close>

theorem set_base_pv_keeps_base_id:
  assumes "name \<noteq> []" and "name \<in> set (pvNames self)"
  shows "set_base_pv (Some name) base_id_arg val_range_arg disTimeAddBack dtResample Trim_arg self
           = (Returned,
              self\<lparr>alignSetup :=
                \<lparr>base_id = base_id_arg, base_pv = Some name,
                 val_range = wrap_val_range val_range_arg,
                 disTimeAddBack_sec = disTimeAddBack, dtResample_sec = dtResample,
                 Trim = Trim_arg\<rparr>\<rparr>)
       \<and> alignHistory service completion getHistory_arg
             (self\<lparr>alignSetup := (alignSetup self)\<lparr>base_id := b\<rparr>\<rparr>)
           = (case alignHistory service completion getHistory_arg self of
                (out, self') \<Rightarrow>
                  (out, self'\<lparr>alignSetup := (alignSetup self')\<lparr>base_id := b\<rparr>\<rparr>))"
  using assms by (simp add: set_base_pv_def Let_def alignHistory_base_id)

text \<open>Setting the second configured signal as the reference with the default index
  \<open>0\<close>: the stored pair disagrees, the signal of index \<open>0\<close> being another one.\<close>

theorem set_base_pv_keeps_base_id_witness:
  "''S'' \<noteq> [] \<and> ''S'' \<in> set (pvNames gap_self)
   \<and> set_base_pv (Some ''S'') (Some 0) (Flat [1, 10]) 1 1 True gap_self
        = (Returned,
           gap_self\<lparr>alignSetup :=
             \<lparr>base_id = Some 0, base_pv = Some ''S'', val_range = Nested [[1, 10]],
              disTimeAddBack_sec = 1, dtResample_sec = 1, Trim = True\<rparr>\<rparr>)
   \<and> pvNames gap_self ! 0 \<noteq> ''S''"
proof -
  have h1: "''S'' \<noteq> []" by simp
  have h2: "''S'' \<in> set (pvNames gap_self)" by (simp add: gap_self_def)
  have w: "wrap_val_range (Flat [1, 10]) = Nested [[1, 10]]" by (simp add: wrap_val_range_def)
  have n: "pvNames gap_self ! 0 \<noteq> ''S''" by (simp add: gap_self_def)
  from set_base_pv_keeps_base_id [OF h1 h2, of "Some 0" "Flat [1, 10]" 1 1 True] h1 h2 n
  show ?thesis unfolding w by blast
qed

text \<open>Claim C10 as stated fails for a configured signal whose name is the empty
  string: an empty \<^verbatim>\<open>base_pv\<close> is false at line 95, the call goes on to check \<^verbatim>\<open>base_id\<close>
  against the number of signals and raises.\<close>

theorem set_base_pv_empty_name_raises:
  "'''' \<in> set (pvNames empty_name_self)
   \<and> set_base_pv (Some '''') (Some 5) (Nested [[1, 10]]) 1 1 True empty_name_self
       = (Raised ValueError, empty_name_self)"
  by (simp add: set_base_pv_def Let_def empty_name_self_def gap_self_def)

end
